theory Spec2Isabelle
  imports Complex_Main
begin

section \<open>The OMR answer-evaluation function\<close>

text \<open>
  This theory embeds the scoring code of the Netlify function for OMR processing
  (\<^verbatim>\<open>answerKeys\<close>, \<^verbatim>\<open>getSubjectForQuestion\<close> and \<^verbatim>\<open>evaluateResponses\<close>) and states
  its properties.

  Conventions of the embedding:
  \<^item> A JavaScript string is a \<^typ>\<open>string\<close>; a character stands for the code unit of the
    same number, so the strings covered are those over U+0000 to U+00FF.
  \<^item> The detected responses are an array of strings; reading past its end gives
    \<^verbatim>\<open>undefined\<close>, modelled by \<^const>\<open>None\<close>.
  \<^item> A property access on \<^verbatim>\<open>undefined\<close> throws a \<^verbatim>\<open>TypeError\<close>; the functions return
    \<open>error + 'a\<close> with \<^const>\<open>Inl\<close> for the exception.
  \<^item> Counters are natural numbers. The two percentages are computed in exact real
    arithmetic: the rounding of IEEE doubles is not modelled (the quotient 1 and the
    product 100 are exact in both).
\<close>

subsection \<open>Strings\<close>

text \<open>\<^verbatim>\<open>String.prototype.trim\<close> removes white space and line terminators from both ends.\<close>

definition isWhiteSpace :: "char \<Rightarrow> bool" where
  "isWhiteSpace c =
     (c \<in> {CHR 0x09, CHR 0x0A, CHR 0x0B, CHR 0x0C, CHR 0x0D, CHR 0x20, CHR 0xA0})"

definition trim :: "string \<Rightarrow> string" where
  "trim s = rev (dropWhile isWhiteSpace (rev (dropWhile isWhiteSpace s)))"

text \<open>\<^verbatim>\<open>String.prototype.toLowerCase\<close> on the code units up to U+00FF: the letters A to Z
  and the capital letters U+00C0 to U+00DE (without U+00D7, the multiplication sign) have a
  lower-case form, 32 places up; every other code unit stays.\<close>

definition upperCaseLetters :: "char list" where
  "upperCaseLetters =
     ''ABCDEFGHIJKLMNOPQRSTUVWXYZ'' @
     [CHR 0xC0, CHR 0xC1, CHR 0xC2, CHR 0xC3, CHR 0xC4, CHR 0xC5,
      CHR 0xC6, CHR 0xC7, CHR 0xC8, CHR 0xC9, CHR 0xCA, CHR 0xCB,
      CHR 0xCC, CHR 0xCD, CHR 0xCE, CHR 0xCF, CHR 0xD0, CHR 0xD1,
      CHR 0xD2, CHR 0xD3, CHR 0xD4, CHR 0xD5, CHR 0xD6, CHR 0xD8,
      CHR 0xD9, CHR 0xDA, CHR 0xDB, CHR 0xDC, CHR 0xDD, CHR 0xDE]"

definition lowerCaseLetters :: "char list" where
  "lowerCaseLetters =
     ''abcdefghijklmnopqrstuvwxyz'' @
     [CHR 0xE0, CHR 0xE1, CHR 0xE2, CHR 0xE3, CHR 0xE4, CHR 0xE5,
      CHR 0xE6, CHR 0xE7, CHR 0xE8, CHR 0xE9, CHR 0xEA, CHR 0xEB,
      CHR 0xEC, CHR 0xED, CHR 0xEE, CHR 0xEF, CHR 0xF0, CHR 0xF1,
      CHR 0xF2, CHR 0xF3, CHR 0xF4, CHR 0xF5, CHR 0xF6, CHR 0xF8,
      CHR 0xF9, CHR 0xFA, CHR 0xFB, CHR 0xFC, CHR 0xFD, CHR 0xFE]"

definition toLowerChar :: "char \<Rightarrow> char" where
  "toLowerChar c =
     (case map_of (zip upperCaseLetters lowerCaseLetters) c of
        Some l \<Rightarrow> l
      | None \<Rightarrow> c)"

definition toLowerCase :: "string \<Rightarrow> string" where
  "toLowerCase s = map toLowerChar s"

text \<open>\<^verbatim>\<open>Number.prototype.toString\<close> on a non-negative integer: its decimal digits.\<close>

definition digit :: "nat \<Rightarrow> char" where
  "digit d = ''0123456789'' ! d"

fun toString :: "nat \<Rightarrow> string" where
  "toString n =
     (if n < 10 then [digit n]
      else toString (n div 10) @ [digit (n mod 10)])"

declare toString.simps [simp del]

text \<open>\<^verbatim>\<open>xs[i]\<close> on an array: \<^verbatim>\<open>undefined\<close> past the end.\<close>

definition index :: "'a list \<Rightarrow> nat \<Rightarrow> 'a option" where
  "index xs i = (if i < length xs then Some (xs ! i) else None)"

subsection \<open>The answer keys\<close>

record answerKey =
  rawAnswers :: "string list"
  specialCases :: "(string \<times> string list) list"

text \<open>The object \<^verbatim>\<open>specialCases\<close> maps the decimal numeral of a question number to its
  \<^verbatim>\<open>acceptedAnswers\<close>; it is kept as the list of its entries in source order.\<close>

definition setA :: answerKey where
  "setA = \<lparr>rawAnswers =
       [''b'', ''a'', ''c'', ''d'', ''b'', ''a'', ''c'', ''b'', ''d'', ''a'',
        ''c'', ''b'', ''d'', ''a'', ''c'', ''a'', ''d'', ''b'', ''c'', ''a'',
        ''a'', ''c'', ''b'', ''d'', ''a'', ''c'', ''b'', ''a'', ''d'', ''c'',
        ''b'', ''a'', ''d'', ''c'', ''b'', ''a'', ''c'', ''d'', ''b'', ''a'',
        ''c'', ''a'', ''b'', ''d'', ''c'', ''a'', ''b'', ''c'', ''d'', ''a'',
        ''b'', ''c'', ''a'', ''d'', ''b'', ''c'', ''a'', ''d'', ''b'', ''a'',
        ''d'', ''b'', ''a'', ''c'', ''d'', ''b'', ''a'', ''d'', ''c'', ''b'',
        ''a'', ''d'', ''c'', ''b'', ''a'', ''d'', ''c'', ''b'', ''a'', ''d'',
        ''a'', ''d'', ''c'', ''b'', ''a'', ''d'', ''c'', ''a'', ''b'', ''d'',
        ''c'', ''a'', ''b'', ''d'', ''c'', ''a'', ''b'', ''d'', ''c'', ''a''],
     specialCases =
       [(''16'', [''a'', ''b'', ''c'', ''d'']),
        (''59'', [''a'', ''b''])]\<rparr>"

definition setB :: answerKey where
  "setB = \<lparr>rawAnswers =
       [''c'', ''b'', ''d'', ''a'', ''c'', ''b'', ''d'', ''c'', ''a'', ''b'',
        ''d'', ''c'', ''a'', ''b'', ''d'', ''b'', ''a'', ''c'', ''d'', ''b'',
        ''b'', ''d'', ''c'', ''a'', ''b'', ''d'', ''c'', ''b'', ''a'', ''d'',
        ''c'', ''b'', ''a'', ''d'', ''c'', ''b'', ''d'', ''a'', ''c'', ''b'',
        ''d'', ''b'', ''c'', ''a'', ''d'', ''b'', ''c'', ''d'', ''a'', ''b'',
        ''c'', ''d'', ''b'', ''a'', ''c'', ''d'', ''b'', ''a'', ''c'', ''b'',
        ''a'', ''c'', ''b'', ''d'', ''a'', ''c'', ''b'', ''a'', ''d'', ''c'',
        ''b'', ''a'', ''d'', ''c'', ''b'', ''a'', ''d'', ''c'', ''b'', ''a'',
        ''b'', ''a'', ''d'', ''c'', ''b'', ''a'', ''d'', ''b'', ''c'', ''a'',
        ''d'', ''b'', ''c'', ''a'', ''d'', ''b'', ''c'', ''a'', ''d'', ''b''],
     specialCases =
       [(''16'', [''a'', ''b'', ''c'', ''d'']),
        (''59'', [''a'', ''b''])]\<rparr>"

text \<open>
  \<^verbatim>\<open>answerKeys\<close> is an object literal, so \<^verbatim>\<open>answerKeys[examSet]\<close> finds, besides the own
  properties \<^verbatim>\<open>setA\<close> and \<^verbatim>\<open>setB\<close>, the members that every object inherits from
  \<^verbatim>\<open>Object.prototype\<close>. Those are functions (or, for \<^verbatim>\<open>__proto__\<close>, the prototype
  object): truthy values with neither \<^verbatim>\<open>rawAnswers\<close> nor \<^verbatim>\<open>specialCases\<close>.
\<close>

datatype property = Undefined | KeyObject answerKey | PrototypeMember

definition objectPrototypeProps :: "string list" where
  "objectPrototypeProps =
     [''constructor'', ''__defineGetter__'', ''__defineSetter__'', ''hasOwnProperty'',
      ''__lookupGetter__'', ''__lookupSetter__'', ''isPrototypeOf'',
      ''propertyIsEnumerable'', ''toString'', ''valueOf'', ''__proto__'',
      ''toLocaleString'']"

definition answerKeys :: "string \<Rightarrow> property" where
  "answerKeys name =
     (if name = ''setA'' then KeyObject setA
      else if name = ''setB'' then KeyObject setB
      else if name \<in> set objectPrototypeProps then PrototypeMember
      else Undefined)"

subsection \<open>Subjects\<close>

definition getSubjectForQuestion :: "nat \<Rightarrow> string" where
  "getSubjectForQuestion questionNum =
     (if questionNum \<ge> 1 \<and> questionNum \<le> 20 then ''Python''
      else if questionNum \<ge> 21 \<and> questionNum \<le> 40 then ''EDA''
      else if questionNum \<ge> 41 \<and> questionNum \<le> 60 then ''SQL''
      else if questionNum \<ge> 61 \<and> questionNum \<le> 80 then ''PowerBI''
      else if questionNum \<ge> 81 \<and> questionNum \<le> 100 then ''Statistics''
      else ''Unknown'')"

definition subjects :: "string list" where
  "subjects = [''Python'', ''EDA'', ''SQL'', ''PowerBI'', ''Statistics'']"

subsection \<open>The evaluation result\<close>

datatype error = TypeError

text \<open>The strings \<^verbatim>\<open>"correct"\<close>, \<^verbatim>\<open>"incorrect"\<close> and \<^verbatim>\<open>"unanswered"\<close> of the field
  \<^verbatim>\<open>status\<close>.\<close>

datatype status = Correct | Incorrect | Unanswered

text \<open>An entry of \<^verbatim>\<open>detailedResults\<close>. The field \<^verbatim>\<open>correctAnswer\<close> holds
  \<^verbatim>\<open>correctAnswers[i]\<close>, which is \<^verbatim>\<open>undefined\<close> past the end of the key.\<close>

record questionResult =
  questionNumber :: nat
  subject :: string
  studentAnswer :: string
  correctAnswer :: "string option"
  isCorrect :: bool
  status :: status

text \<open>An entry of the \<^verbatim>\<open>questions\<close> of a subject, and the value of
  \<^verbatim>\<open>subjectScores[subject]\<close>; their fields carry the suffix \<open>_s\<close> where the name
  is also a field of another object. In the functions below a local variable of the
  source that shares its name with a field is written with a prime.\<close>

record subjectQuestion =
  questionNumber_s :: nat
  isCorrect_s :: bool
  status_s :: status

record subjectData =
  correct_s :: nat
  total :: nat
  percentage_s :: real
  questions :: "subjectQuestion list"

record summaryCounts =
  correct :: nat
  incorrect :: nat
  unanswered :: nat

text \<open>\<^verbatim>\<open>subjectScores\<close> is an object whose keys are the subject names in insertion order:
  a list of pairs with distinct first components.\<close>

record evaluationResult =
  totalQuestions :: nat
  totalScore :: nat
  percentage :: real
  subjectScores :: "(string \<times> subjectData) list"
  detailedResults :: "questionResult list"
  summary :: summaryCounts

definition initialResults :: evaluationResult where
  "initialResults =
     \<lparr>totalQuestions = 100,
      totalScore = 0,
      percentage = 0,
      subjectScores =
        map (\<lambda>subject. (subject, \<lparr>correct_s = 0, total = 20, percentage_s = 0, questions = []\<rparr>))
          subjects,
      detailedResults = [],
      summary = \<lparr>correct = 0, incorrect = 0, unanswered = 0\<rparr>\<rparr>"

subsection \<open>Scoring one question\<close>

text \<open>An update of \<^verbatim>\<open>results.subjectScores[subject]\<close>: a \<^verbatim>\<open>TypeError\<close> when the object has
  no such key.\<close>

definition updateSubject ::
  "string \<Rightarrow> (subjectData \<Rightarrow> subjectData) \<Rightarrow> (string \<times> subjectData) list
     \<Rightarrow> error + (string \<times> subjectData) list" where
  "updateSubject subject' f scores =
     (if subject' \<in> fst ` set scores
      then Inr (map (\<lambda>(name, d). if name = subject' then (name, f d) else (name, d)) scores)
      else Inl TypeError)"

text \<open>\<^verbatim>\<open>responses[i] || ""\<close>: the empty string for \<^verbatim>\<open>undefined\<close> (and for the empty
  string, which is falsy too).\<close>

definition answerAt :: "string list \<Rightarrow> nat \<Rightarrow> string" where
  "answerAt responses i = (case index responses i of Some s \<Rightarrow> s | None \<Rightarrow> [])"

text \<open>\<^verbatim>\<open>!studentAnswer || studentAnswer.trim() === ""\<close>\<close>

definition blank :: "string \<Rightarrow> bool" where
  "blank studentAnswer' = (studentAnswer' = [] \<or> trim studentAnswer' = [])"

text \<open>The comparison of lines 197 to 202. Without a special case the key's entry is
  lower-cased, which throws when the entry is \<^verbatim>\<open>undefined\<close>.\<close>

definition answerMatches ::
  "(string \<times> string list) list \<Rightarrow> nat \<Rightarrow> string \<Rightarrow> string option \<Rightarrow> error + bool" where
  "answerMatches specialCases' questionNum studentAnswer' correctAnswer' =
     (case map_of specialCases' (toString questionNum) of
        Some acceptedAnswers \<Rightarrow> Inr (toLowerCase studentAnswer' \<in> set acceptedAnswers)
      | None \<Rightarrow>
          (case correctAnswer' of
             None \<Rightarrow> Inl TypeError
           | Some c \<Rightarrow> Inr (toLowerCase studentAnswer' = toLowerCase c)))"

text \<open>Lines 189 to 212: the verdict on one answer and the counters it moves.\<close>

definition tally ::
  "(string \<times> string list) list \<Rightarrow> nat \<Rightarrow> string \<Rightarrow> string \<Rightarrow> string option
     \<Rightarrow> evaluationResult \<Rightarrow> error + (bool \<times> status \<times> evaluationResult)" where
  "tally specialCases' questionNum subject' studentAnswer' correctAnswer' results =
     (if blank studentAnswer'
      then Inr (False, Unanswered,
             results\<lparr>summary := (summary results)\<lparr>unanswered := unanswered (summary results) + 1\<rparr>\<rparr>)
      else
        case answerMatches specialCases' questionNum studentAnswer' correctAnswer' of
          Inl e \<Rightarrow> Inl e
        | Inr isCorrect' \<Rightarrow>
            if isCorrect'
            then
              (case updateSubject subject' (\<lambda>d. d\<lparr>correct_s := correct_s d + 1\<rparr>)
                      (subjectScores results) of
                 Inl e \<Rightarrow> Inl e
               | Inr scores \<Rightarrow>
                   Inr (True, Correct,
                     results\<lparr>totalScore := totalScore results + 1,
                             summary := (summary results)\<lparr>correct := correct (summary results) + 1\<rparr>,
                             subjectScores := scores\<rparr>))
            else
              Inr (False, Incorrect,
                results\<lparr>summary := (summary results)\<lparr>incorrect := incorrect (summary results) + 1\<rparr>\<rparr>))"

text \<open>The body of the loop, for the index \<open>i\<close>. \<^verbatim>\<open>correctAnswers\<close> is \<^const>\<open>None\<close> when
  the selected key has no \<^verbatim>\<open>rawAnswers\<close>; then \<^verbatim>\<open>correctAnswers[i]\<close> throws.\<close>

definition evalQuestion ::
  "string list \<Rightarrow> string list option \<Rightarrow> (string \<times> string list) list \<Rightarrow> nat
     \<Rightarrow> evaluationResult \<Rightarrow> error + evaluationResult" where
  "evalQuestion responses correctAnswers specialCases' i results =
     (let questionNum = i + 1;
          subject' = getSubjectForQuestion questionNum;
          studentAnswer' = answerAt responses i
      in case correctAnswers of
           None \<Rightarrow> Inl TypeError
         | Some answers \<Rightarrow>
             let correctAnswer' = index answers i
             in case tally specialCases' questionNum subject' studentAnswer' correctAnswer' results of
                  Inl e \<Rightarrow> Inl e
                | Inr (isCorrect', status', results1) \<Rightarrow>
                    let results2 = results1\<lparr>detailedResults := detailedResults results1 @
                          [\<lparr>questionNumber = questionNum, subject = subject',
                            studentAnswer = studentAnswer', correctAnswer = correctAnswer',
                            isCorrect = isCorrect', status = status'\<rparr>]\<rparr>
                    in case updateSubject subject'
                              (\<lambda>d. d\<lparr>questions := questions d @
                                 [\<lparr>questionNumber_s = questionNum, isCorrect_s = isCorrect',
                                   status_s = status'\<rparr>]\<rparr>)
                              (subjectScores results2) of
                         Inl e \<Rightarrow> Inl e
                       | Inr scores \<Rightarrow> Inr (results2\<lparr>subjectScores := scores\<rparr>))"

subsection \<open>The loop and the function\<close>

function evalLoop ::
  "string list \<Rightarrow> string list option \<Rightarrow> (string \<times> string list) list \<Rightarrow> nat
     \<Rightarrow> evaluationResult \<Rightarrow> error + evaluationResult" where
  "evalLoop responses correctAnswers specialCases' i results =
     (if i < 100
      then case evalQuestion responses correctAnswers specialCases' i results of
             Inl e \<Rightarrow> Inl e
           | Inr results' \<Rightarrow> evalLoop responses correctAnswers specialCases' (i + 1) results'
      else Inr results)"
  by pat_completeness auto
termination
  by (relation "measure (\<lambda>(responses, correctAnswers, specialCases', i, results). 100 - i)") auto

declare evalLoop.simps [simp del]

text \<open>\<^verbatim>\<open>answerKeys[examSet] || answerKeys.setA\<close>\<close>

definition selectAnswerKey :: "string \<Rightarrow> property" where
  "selectAnswerKey examSet =
     (case answerKeys examSet of Undefined \<Rightarrow> KeyObject setA | found \<Rightarrow> found)"

text \<open>The percentages of lines 233 to 238.\<close>

definition setPercentages :: "evaluationResult \<Rightarrow> evaluationResult" where
  "setPercentages results =
     results\<lparr>percentage := (real (totalScore results) / 100) * 100,
             subjectScores :=
               map (\<lambda>(name, subjectData).
                      (name, subjectData\<lparr>percentage_s :=
                         (real (correct_s subjectData) / real (total subjectData)) * 100\<rparr>))
                 (subjectScores results)\<rparr>"

definition evaluateResponses :: "string list \<Rightarrow> string \<Rightarrow> error + evaluationResult" where
  "evaluateResponses responses examSet =
     (let answerKey = selectAnswerKey examSet;
          correctAnswers = (case answerKey of KeyObject k \<Rightarrow> Some (rawAnswers k) | _ \<Rightarrow> None);
          specialCases' = (case answerKey of KeyObject k \<Rightarrow> specialCases k | _ \<Rightarrow> [])
      in case evalLoop responses correctAnswers specialCases' 0 initialResults of
           Inl e \<Rightarrow> Inl e
         | Inr results \<Rightarrow> Inr (setPercentages results))"

subsection \<open>Notions for the statements and proofs\<close>

definition countStatus :: "status \<Rightarrow> questionResult list \<Rightarrow> nat" where
  "countStatus st ds = length (filter (\<lambda>d. status d = st) ds)"

definition sumCorrect :: "(string \<times> subjectData) list \<Rightarrow> nat" where
  "sumCorrect scores = sum_list (map (\<lambda>(name, d). correct_s d) scores)"

text \<open>The record that the loop body pushes for the index \<open>j\<close>, as a relation between the
  inputs and the record.\<close>

definition scoredAs ::
  "string list \<Rightarrow> string list \<Rightarrow> (string \<times> string list) list \<Rightarrow> nat \<Rightarrow> questionResult \<Rightarrow> bool"
  where
  "scoredAs responses answers specialCases' j d \<longleftrightarrow>
     questionNumber d = j + 1 \<and>
     subject d = getSubjectForQuestion (j + 1) \<and>
     studentAnswer d = answerAt responses j \<and>
     correctAnswer d = index answers j \<and>
     (if blank (answerAt responses j)
      then \<not> isCorrect d \<and> status d = Unanswered
      else answerMatches specialCases' (j + 1) (answerAt responses j) (index answers j)
             = Inr (isCorrect d) \<and>
           status d = (if isCorrect d then Correct else Incorrect))"

text \<open>What holds of the running result between two iterations.\<close>

definition consistent :: "evaluationResult \<Rightarrow> bool" where
  "consistent r \<longleftrightarrow>
     totalQuestions r = 100 \<and>
     map fst (subjectScores r) = subjects \<and>
     totalScore r = countStatus Correct (detailedResults r) \<and>
     correct (summary r) = countStatus Correct (detailedResults r) \<and>
     incorrect (summary r) = countStatus Incorrect (detailedResults r) \<and>
     unanswered (summary r) = countStatus Unanswered (detailedResults r) \<and>
     sumCorrect (subjectScores r) = totalScore r \<and>
     (\<forall>(name, d) \<in> set (subjectScores r).
        total d = 20 \<and>
        correct_s d =
          length (filter (\<lambda>q. subject q = name \<and> status q = Correct) (detailedResults r)) \<and>
        map questionNumber_s (questions d) =
          map questionNumber (filter (\<lambda>q. subject q = name) (detailedResults r)))"

section \<open>Properties\<close>

subsection \<open>Blank answers and lower case\<close>

lemma trim_empty_iff: "trim s = [] \<longleftrightarrow> (\<forall>c\<in>set s. isWhiteSpace c)"
proof -
  have "(\<forall>c\<in>set (dropWhile isWhiteSpace s). isWhiteSpace c) \<longleftrightarrow> (\<forall>c\<in>set s. isWhiteSpace c)"
  proof
    assume all: "\<forall>c\<in>set (dropWhile isWhiteSpace s). isWhiteSpace c"
    have "dropWhile isWhiteSpace s = []"
    proof (rule ccontr)
      assume ne: "dropWhile isWhiteSpace s \<noteq> []"
      then have "\<not> isWhiteSpace (hd (dropWhile isWhiteSpace s))"
        by (rule hd_dropWhile)
      moreover from ne have "hd (dropWhile isWhiteSpace s) \<in> set (dropWhile isWhiteSpace s)"
        by simp
      ultimately show False using all by blast
    qed
    then show "\<forall>c\<in>set s. isWhiteSpace c"
      by (simp add: dropWhile_eq_Nil_conv)
  next
    assume "\<forall>c\<in>set s. isWhiteSpace c"
    then show "\<forall>c\<in>set (dropWhile isWhiteSpace s). isWhiteSpace c"
      by (meson set_dropWhileD)
  qed
  then show ?thesis
    by (simp add: trim_def dropWhile_eq_Nil_conv)
qed

lemma blank_iff: "blank s \<longleftrightarrow> (\<forall>c\<in>set s. isWhiteSpace c)"
  by (auto simp add: blank_def trim_empty_iff)






subsection \<open>One iteration\<close>

lemma subject_known: "i < 100 \<Longrightarrow> getSubjectForQuestion (i + 1) \<in> set subjects"
  by (simp add: getSubjectForQuestion_def subjects_def)

lemma updateSubject_known:
  "subject' \<in> fst ` set scores \<Longrightarrow>
   updateSubject subject' f scores =
     Inr (map (\<lambda>(name, d). if name = subject' then (name, f d) else (name, d)) scores)"
  by (simp add: updateSubject_def)

lemma updateSubject_Inr:
  "updateSubject subject' f scores = Inr scores' \<Longrightarrow>
   subject' \<in> fst ` set scores \<and>
   scores' = map (\<lambda>(name, d). if name = subject' then (name, f d) else (name, d)) scores"
  by (auto simp add: updateSubject_def split: if_splits)

lemma map_fst_update:
  "map fst (map (\<lambda>(name, d). if name = s then (name, f d) else (name, d)) scores) = map fst scores"
  by (induction scores) auto

lemma sumCorrect_update_other:
  "(\<And>d. correct_s (f d) = correct_s d) \<Longrightarrow>
   sumCorrect (map (\<lambda>(name, d). if name = s then (name, f d) else (name, d)) scores) = sumCorrect scores"
  by (induction scores) (auto simp add: sumCorrect_def)

lemma sumCorrect_bump:
  "distinct (map fst scores) \<Longrightarrow> s \<in> fst ` set scores \<Longrightarrow>
   sumCorrect (map (\<lambda>(name, d). if name = s then (name, d\<lparr>correct_s := correct_s d + 1\<rparr>) else (name, d)) scores)
     = sumCorrect scores + 1"
proof (induction scores)
  case Nil
  then show ?case by simp
next
  case (Cons p scores)
  obtain name d where p: "p = (name, d)" by (cases p)
  show ?case
  proof (cases "name = s")
    case True
    with Cons.prems p have "s \<notin> fst ` set scores" by auto
    then have "map (\<lambda>(name, d). if name = s then (name, d\<lparr>correct_s := correct_s d + 1\<rparr>) else (name, d)) scores = scores"
      by (induction scores) auto
    with True p show ?thesis by (simp add: sumCorrect_def)
  next
    case False
    with Cons p show ?thesis by (auto simp add: sumCorrect_def)
  qed
qed


lemma tally_Inr:
  assumes "tally specialCases' questionNum subject' studentAnswer' correctAnswer' r = Inr (v, st, r1)"
  shows "detailedResults r1 = detailedResults r"
    and "totalQuestions r1 = totalQuestions r"
    and "if blank studentAnswer' then \<not> v \<and> st = Unanswered
         else answerMatches specialCases' questionNum studentAnswer' correctAnswer' = Inr v \<and>
              st = (if v then Correct else Incorrect)"
    and "totalScore r1 = totalScore r + (if st = Correct then 1 else 0)"
    and "correct (summary r1) = correct (summary r) + (if st = Correct then 1 else 0)"
    and "incorrect (summary r1) = incorrect (summary r) + (if st = Incorrect then 1 else 0)"
    and "unanswered (summary r1) = unanswered (summary r) + (if st = Unanswered then 1 else 0)"
    and "if st = Correct
         then updateSubject subject' (\<lambda>d. d\<lparr>correct_s := correct_s d + 1\<rparr>) (subjectScores r)
                = Inr (subjectScores r1)
         else subjectScores r1 = subjectScores r"
  using assms by (auto simp add: tally_def split: if_splits sum.splits)

lemma tally_keys:
  assumes "tally specialCases' questionNum subject' studentAnswer' correctAnswer' r = Inr (v, st, r1)"
  shows "map fst (subjectScores r1) = map fst (subjectScores r)"
proof (cases "st = Correct")
  case True
  with tally_Inr(8) [OF assms] have
    "updateSubject subject' (\<lambda>d. d\<lparr>correct_s := correct_s d + 1\<rparr>) (subjectScores r)
       = Inr (subjectScores r1)"
    by simp
  from updateSubject_Inr [OF this] have eq: "subjectScores r1 =
      map (\<lambda>(name, d). if name = subject' then (name, d\<lparr>correct_s := correct_s d + 1\<rparr>)
                        else (name, d)) (subjectScores r)"
    by simp
  show ?thesis
    unfolding eq by (rule map_fst_update)
next
  case False
  with tally_Inr(8) [OF assms] show ?thesis by simp
qed

lemma evalQuestion_Inr:
  assumes "evalQuestion responses (Some answers) specialCases' i r = Inr r'"
  obtains v st r1 scores where
    "tally specialCases' (i + 1) (getSubjectForQuestion (i + 1)) (answerAt responses i)
       (index answers i) r = Inr (v, st, r1)"
    "updateSubject (getSubjectForQuestion (i + 1))
       (\<lambda>d. d\<lparr>questions := questions d @
          [\<lparr>questionNumber_s = i + 1, isCorrect_s = v, status_s = st\<rparr>]\<rparr>)
       (subjectScores r1) = Inr scores"
    "r' = r1\<lparr>detailedResults := detailedResults r1 @
            [\<lparr>questionNumber = i + 1, subject = getSubjectForQuestion (i + 1),
              studentAnswer = answerAt responses i, correctAnswer = index answers i,
              isCorrect = v, status = st\<rparr>],
          subjectScores := scores\<rparr>"
  using assms by (auto simp add: evalQuestion_def Let_def split: sum.splits)


lemma distinct_subjects: "distinct subjects"
  by (simp add: subjects_def)

lemma countStatus_snoc:
  "countStatus st (ds @ [d]) = countStatus st ds + (if status d = st then 1 else 0)"
  by (simp add: countStatus_def)

lemma evalQuestion_consistent:
  assumes step: "evalQuestion responses (Some answers) specialCases' i r = Inr r'"
    and inv: "consistent r"
  shows "consistent r'"
    and "\<exists>d. detailedResults r' = detailedResults r @ [d] \<and>
              scoredAs responses answers specialCases' i d"
proof -
  let ?subj = "getSubjectForQuestion (i + 1)"
  from step obtain v st r1 scores where
    T: "tally specialCases' (i + 1) ?subj (answerAt responses i) (index answers i) r
          = Inr (v, st, r1)" and
    U: "updateSubject ?subj
          (\<lambda>d. d\<lparr>questions := questions d @
             [\<lparr>questionNumber_s = i + 1, isCorrect_s = v, status_s = st\<rparr>]\<rparr>)
          (subjectScores r1) = Inr scores" and
    R: "r' = r1\<lparr>detailedResults := detailedResults r1 @
            [\<lparr>questionNumber = i + 1, subject = ?subj,
              studentAnswer = answerAt responses i, correctAnswer = index answers i,
              isCorrect = v, status = st\<rparr>],
          subjectScores := scores\<rparr>"
    by (rule evalQuestion_Inr)
  let ?d = "\<lparr>questionNumber = i + 1, subject = ?subj,
              studentAnswer = answerAt responses i, correctAnswer = index answers i,
              isCorrect = v, status = st\<rparr>"
  let ?push = "\<lambda>d. d\<lparr>questions := questions d @
             [\<lparr>questionNumber_s = i + 1, isCorrect_s = v, status_s = st\<rparr>]\<rparr>"
  let ?bump = "\<lambda>d. d\<lparr>correct_s := correct_s d + 1\<rparr>"
  note t = tally_Inr [OF T]
  have dr: "detailedResults r' = detailedResults r @ [?d]"
    using R t(1) by simp
  have sc: "scoredAs responses answers specialCases' i ?d"
    using t(3) by (simp add: scoredAs_def split: if_splits)
  from dr sc show "\<exists>d. detailedResults r' = detailedResults r @ [d] \<and>
              scoredAs responses answers specialCases' i d"
    by blast
  from updateSubject_Inr [OF U] have
    mem1: "?subj \<in> fst ` set (subjectScores r1)" and
    scores: "scores = map (\<lambda>(name, d). if name = ?subj then (name, ?push d) else (name, d))
               (subjectScores r1)"
    by simp_all
  have r1: "subjectScores r1 =
      (if st = Correct
       then map (\<lambda>(name, d). if name = ?subj then (name, ?bump d) else (name, d)) (subjectScores r)
       else subjectScores r)"
  proof (cases "st = Correct")
    case True
    with t(8) have "updateSubject ?subj ?bump (subjectScores r) = Inr (subjectScores r1)"
      by simp
    from updateSubject_Inr [OF this] True show ?thesis
      by simp
  next
    case False
    with t(8) show ?thesis by simp
  qed
  have keys1: "map fst (subjectScores r1) = map fst (subjectScores r)"
    by (auto simp add: r1 split: prod.splits)
  have keys: "map fst (subjectScores r) = subjects"
    using inv by (simp add: consistent_def)
  have mem: "?subj \<in> fst ` set (subjectScores r)"
    using mem1 keys1 by (metis set_map)
  have dist: "distinct (map fst (subjectScores r))"
    by (simp add: keys distinct_subjects)
  have all: "subjectScores r' =
      map (\<lambda>(name, d). (name, if name = ?subj
             then ?push (if st = Correct then ?bump d else d) else d)) (subjectScores r)"
    using R by (auto simp add: scores r1)
  have sum1: "sumCorrect (subjectScores r1) = sumCorrect (subjectScores r) + (if st = Correct then 1 else 0)"
    using sumCorrect_bump [OF dist mem] by (simp add: r1)
  have sum: "sumCorrect (subjectScores r') = sumCorrect (subjectScores r) + (if st = Correct then 1 else 0)"
    using R sum1 by (simp add: scores sumCorrect_update_other)
  have per: "\<forall>(name, d) \<in> set (subjectScores r').
        total d = 20 \<and>
        correct_s d =
          length (filter (\<lambda>q. subject q = name \<and> status q = Correct) (detailedResults r')) \<and>
        map questionNumber_s (questions d) =
          map questionNumber (filter (\<lambda>q. subject q = name) (detailedResults r'))"
    using inv by (auto simp add: consistent_def all dr)
  have same: "totalQuestions r' = totalQuestions r1" "totalScore r' = totalScore r1"
    "summary r' = summary r1"
    using R by simp_all
  have keys': "map fst (subjectScores r') = map fst (subjectScores r)"
    by (auto simp add: all split: prod.splits)
  show "consistent r'"
    unfolding consistent_def
  proof (intro conjI)
    show "totalQuestions r' = 100" using t(2) inv by (simp add: same consistent_def)
    show "map fst (subjectScores r') = subjects"
      using keys keys' by simp
    show "totalScore r' = countStatus Correct (detailedResults r')"
      using t(4) inv by (simp add: same dr countStatus_snoc consistent_def)
    show "correct (summary r') = countStatus Correct (detailedResults r')"
      using t(5) inv by (simp add: same dr countStatus_snoc consistent_def)
    show "incorrect (summary r') = countStatus Incorrect (detailedResults r')"
      using t(6) inv by (simp add: same dr countStatus_snoc consistent_def)
    show "unanswered (summary r') = countStatus Unanswered (detailedResults r')"
      using t(7) inv by (simp add: same dr countStatus_snoc consistent_def)
    show "sumCorrect (subjectScores r') = totalScore r'"
      using t(4) inv sum by (simp add: same consistent_def)
    show "\<forall>(name, d) \<in> set (subjectScores r').
        total d = 20 \<and>
        correct_s d =
          length (filter (\<lambda>q. subject q = name \<and> status q = Correct) (detailedResults r')) \<and>
        map questionNumber_s (questions d) =
          map questionNumber (filter (\<lambda>q. subject q = name) (detailedResults r'))"
      by (rule per)
  qed
qed


lemma evalQuestion_returns:
  assumes inv: "consistent r" and i: "i < 100"
    and key: "blank (answerAt responses i) \<or> map_of specialCases' (toString (i + 1)) \<noteq> None \<or>
              i < length answers"
  shows "\<exists>r'. evalQuestion responses (Some answers) specialCases' i r = Inr r'"
proof -
  let ?subj = "getSubjectForQuestion (i + 1)"
  have mem: "?subj \<in> fst ` set (subjectScores r)"
  proof -
    have "?subj \<in> set (map fst (subjectScores r))"
      using inv subject_known [OF i] by (simp add: consistent_def)
    then show ?thesis by simp
  qed
  have "\<exists>out. tally specialCases' (i + 1) ?subj (answerAt responses i) (index answers i) r
          = Inr out"
  proof (cases "blank (answerAt responses i)")
    case True
    then show ?thesis by (auto simp add: tally_def)
  next
    case False
    with key have "map_of specialCases' (toString (i + 1)) \<noteq> None \<or> i < length answers"
      by simp
    then have "\<exists>v. answerMatches specialCases' (i + 1) (answerAt responses i)
                  (index answers i) = Inr v"
      by (cases "map_of specialCases' (toString (i + 1))")
        (auto simp add: answerMatches_def index_def)
    then obtain v where
      "answerMatches specialCases' (i + 1) (answerAt responses i) (index answers i) = Inr v"
      by blast
    with False mem show ?thesis
      by (auto simp add: tally_def updateSubject_def)
  qed
  then obtain v st r1 where
    T: "tally specialCases' (i + 1) ?subj (answerAt responses i) (index answers i) r
          = Inr (v, st, r1)"
    by (metis prod_cases3)
  have "map fst (subjectScores r1) = map fst (subjectScores r)"
    by (rule tally_keys [OF T])
  with mem have "?subj \<in> fst ` set (subjectScores r1)"
    by (metis set_map)
  with T show ?thesis
    by (simp add: evalQuestion_def Let_def updateSubject_def)
qed

subsection \<open>The loop\<close>

lemma evalLoop_Inr:
  assumes "evalLoop responses (Some answers) specialCases' i r = Inr r'"
    and "consistent r" and "length (detailedResults r) = i" and "i \<le> 100"
  shows "consistent r' \<and> length (detailedResults r') = 100 \<and>
         (\<forall>j<i. detailedResults r' ! j = detailedResults r ! j) \<and>
         (\<forall>j. i \<le> j \<and> j < 100 \<longrightarrow>
              scoredAs responses answers specialCases' j (detailedResults r' ! j))"
  using assms
proof (induction responses "Some answers" specialCases' i r rule: evalLoop.induct)
  case (1 responses specialCases' i results)
  show ?case
  proof (cases "i < 100")
    case False
    with "1.prems" have "i = 100" "r' = results"
      by (simp_all add: evalLoop.simps [of _ _ _ i])
    with "1.prems" show ?thesis by auto
  next
    case True
    with "1.prems"(1) obtain r1 where
      step: "evalQuestion responses (Some answers) specialCases' i results = Inr r1" and
      rest: "evalLoop responses (Some answers) specialCases' (i + 1) r1 = Inr r'"
      by (auto simp add: evalLoop.simps [of _ _ _ i] split: sum.splits)
    from evalQuestion_consistent [OF step "1.prems"(2)] obtain d where
      inv1: "consistent r1" and
      dr1: "detailedResults r1 = detailedResults results @ [d]" and
      d: "scoredAs responses answers specialCases' i d"
      by blast
    have len1: "length (detailedResults r1) = i + 1"
      using dr1 "1.prems"(3) by simp
    from "1.hyps" [OF True step rest inv1 len1] True have
      ih: "consistent r'" "length (detailedResults r') = 100"
        "\<forall>j<i + 1. detailedResults r' ! j = detailedResults r1 ! j"
        "\<forall>j. i + 1 \<le> j \<and> j < 100 \<longrightarrow>
              scoredAs responses answers specialCases' j (detailedResults r' ! j)"
      by simp_all
    have old: "\<forall>j<i. detailedResults r' ! j = detailedResults results ! j"
      using ih(3) dr1 "1.prems"(3) by (simp add: nth_append)
    have "detailedResults r' ! i = d"
      using ih(3) dr1 "1.prems"(3) by (simp add: nth_append)
    with d ih(4) have new: "\<forall>j. i \<le> j \<and> j < 100 \<longrightarrow>
              scoredAs responses answers specialCases' j (detailedResults r' ! j)"
      by (metis Suc_eq_plus1 Suc_leI le_neq_implies_less)
    from ih(1,2) old new show ?thesis by blast
  qed
qed

lemma evalLoop_returns:
  assumes "consistent r" and "100 \<le> length answers"
  shows "\<exists>r'. evalLoop responses (Some answers) specialCases' i r = Inr r'"
  using assms
proof (induction responses "Some answers" specialCases' i r rule: evalLoop.induct)
  case (1 responses specialCases' i results)
  show ?case
  proof (cases "i < 100")
    case False
    then show ?thesis by (simp add: evalLoop.simps [of _ _ _ i])
  next
    case True
    with "1.prems"(2) have "i < length answers" by simp
    with evalQuestion_returns [OF "1.prems"(1) True] obtain r1 where
      step: "evalQuestion responses (Some answers) specialCases' i results = Inr r1"
      by blast
    from evalQuestion_consistent(1) [OF step "1.prems"(1)] have "consistent r1" .
    from "1.hyps" [OF True step this "1.prems"(2)] obtain r' where
      "evalLoop responses (Some answers) specialCases' (i + 1) r1 = Inr r'"
      by blast
    with True step show ?thesis
      by (simp add: evalLoop.simps [of _ _ _ i])
  qed
qed

lemma consistent_initial: "consistent initialResults"
  by (simp add: consistent_def initialResults_def countStatus_def sumCorrect_def subjects_def)

subsection \<open>Exam sets named like an inherited property\<close>

lemma selectAnswerKey_cases:
  "selectAnswerKey examSet = KeyObject setA \<or> selectAnswerKey examSet = KeyObject setB \<or>
   selectAnswerKey examSet = PrototypeMember"
  by (simp add: selectAnswerKey_def answerKeys_def)

lemma selectAnswerKey_prototype:
  "selectAnswerKey examSet = PrototypeMember \<longleftrightarrow> examSet \<in> set objectPrototypeProps"
  by (simp add: selectAnswerKey_def answerKeys_def objectPrototypeProps_def)

lemma evaluateResponses_prototype:
  "examSet \<in> set objectPrototypeProps \<Longrightarrow> evaluateResponses responses examSet = Inl TypeError"
proof -
  assume "examSet \<in> set objectPrototypeProps"
  then have "selectAnswerKey examSet = PrototypeMember"
    by (simp add: selectAnswerKey_prototype)
  then show ?thesis
    by (simp add: evaluateResponses_def evalLoop.simps [of _ _ _ 0] evalQuestion_def)
qed

subsection \<open>The function as a whole\<close>

lemma setPercentages_fields [simp]:
  "totalQuestions (setPercentages r) = totalQuestions r"
  "totalScore (setPercentages r) = totalScore r"
  "detailedResults (setPercentages r) = detailedResults r"
  "summary (setPercentages r) = summary r"
  "percentage (setPercentages r) = real (totalScore r) / 100 * 100"
  "map fst (subjectScores (setPercentages r)) = map fst (subjectScores r)"
  by (auto simp add: setPercentages_def split: prod.splits)

lemma sumCorrect_setPercentages [simp]:
  "sumCorrect (subjectScores (setPercentages r)) = sumCorrect (subjectScores r)"
proof -
  have "sumCorrect (map (\<lambda>(name, d). (name, d\<lparr>percentage_s := f d\<rparr>)) scores) = sumCorrect scores"
    for f and scores :: "(string \<times> subjectData) list"
    by (induction scores) (auto simp add: sumCorrect_def)
  then show ?thesis by (simp add: setPercentages_def)
qed

lemma setPercentages_subject:
  assumes "(name, d) \<in> set (subjectScores (setPercentages r))"
  obtains d0 where "(name, d0) \<in> set (subjectScores r)"
    "correct_s d = correct_s d0" "total d = total d0" "questions d = questions d0"
    "percentage_s d = real (correct_s d0) / real (total d0) * 100"
  using assms by (auto simp add: setPercentages_def)


lemma key_cases:
  assumes "selectAnswerKey examSet = KeyObject k"
  shows "k = setA \<or> k = setB"
  using assms selectAnswerKey_cases [of examSet] by auto

lemma key_length: "selectAnswerKey examSet = KeyObject k \<Longrightarrow> length (rawAnswers k) = 100"
  by (auto dest!: key_cases simp add: setA_def setB_def)



lemma selectAnswerKey_valid:
  "examSet \<notin> set objectPrototypeProps \<Longrightarrow> \<exists>k. selectAnswerKey examSet = KeyObject k"
  using selectAnswerKey_cases [of examSet] selectAnswerKey_prototype [of examSet] by auto

lemma evaluateResponses_returns:
  assumes "selectAnswerKey examSet = KeyObject k"
  obtains r0 where
    "evaluateResponses responses examSet = Inr (setPercentages r0)"
    "evalLoop responses (Some (rawAnswers k)) (specialCases k) 0 initialResults = Inr r0"
    "consistent r0"
    "length (detailedResults r0) = 100"
    "\<forall>j<100. scoredAs responses (rawAnswers k) (specialCases k) j (detailedResults r0 ! j)"
proof -
  have "100 \<le> length (rawAnswers k)"
    using key_length [OF assms] by simp
  from evalLoop_returns [OF consistent_initial this] obtain r0 where
    loop: "evalLoop responses (Some (rawAnswers k)) (specialCases k) 0 initialResults = Inr r0"
    by blast
  have "length (detailedResults initialResults) = 0"
    by (simp add: initialResults_def)
  from evalLoop_Inr [OF loop consistent_initial this] have
    "consistent r0" "length (detailedResults r0) = 100"
    "\<forall>j<100. scoredAs responses (rawAnswers k) (specialCases k) j (detailedResults r0 ! j)"
    by simp_all
  moreover have "evaluateResponses responses examSet = Inr (setPercentages r0)"
    using assms loop by (simp add: evaluateResponses_def)
  ultimately show ?thesis using loop that by blast
qed

lemma evaluateResponses_Inr:
  assumes "evaluateResponses responses examSet = Inr r"
  obtains k r0 where
    "selectAnswerKey examSet = KeyObject k"
    "r = setPercentages r0"
    "consistent r0"
    "length (detailedResults r0) = 100"
    "\<forall>j<100. scoredAs responses (rawAnswers k) (specialCases k) j (detailedResults r0 ! j)"
proof -
  have "examSet \<notin> set objectPrototypeProps"
    using assms evaluateResponses_prototype [of examSet responses] by auto
  from selectAnswerKey_valid [OF this] obtain k where k: "selectAnswerKey examSet = KeyObject k"
    by blast
  from evaluateResponses_returns [OF k, of responses] assms k that show ?thesis
    by (metis sum.inject(2))
qed

lemma countStatus_total:
  "countStatus Correct ds + countStatus Incorrect ds + countStatus Unanswered ds = length ds"
proof (induction ds)
  case Nil
  then show ?case by (simp add: countStatus_def)
next
  case (Cons d ds)
  then show ?case by (cases "status d") (simp_all add: countStatus_def)
qed


subsection \<open>Scores and counters\<close>

text \<open>
  C1. For every response array, the result that \<^const>\<open>evaluateResponses\<close> returns has a
  \<^const>\<open>totalScore\<close> equal to the number of records of \<^const>\<open>detailedResults\<close> whose status
  is \<^const>\<open>Correct\<close>, and the score, the incorrect count and the unanswered count add up to
  \<^const>\<open>totalQuestions\<close>, which is 100. The function returns for every exam set that is not the name of an
  inherited property (for those it throws, see \<open>evaluateResponses_prototype\<close>).
\<close>

theorem evaluateResponses_totals:
  assumes "examSet \<notin> set objectPrototypeProps"
  shows "\<exists>r. evaluateResponses responses examSet = Inr r \<and>
           totalScore r = length (filter (\<lambda>d. status d = Correct) (detailedResults r)) \<and>
           totalScore r + incorrect (summary r) + unanswered (summary r) = totalQuestions r \<and>
           totalQuestions r = 100"
proof -
  from selectAnswerKey_valid [OF assms] obtain k where "selectAnswerKey examSet = KeyObject k"
    by blast
  from evaluateResponses_returns [OF this, of responses] obtain r0 where
    r0: "evaluateResponses responses examSet = Inr (setPercentages r0)"
      "consistent r0" "length (detailedResults r0) = 100"
    by blast
  have "totalScore r0 = length (filter (\<lambda>d. status d = Correct) (detailedResults r0))"
    using r0(2) by (simp add: consistent_def countStatus_def)
  moreover have "totalScore r0 + incorrect (summary r0) + unanswered (summary r0) = 100"
    using r0(2,3) countStatus_total [of "detailedResults r0"] by (simp add: consistent_def)
  moreover have "totalQuestions r0 = 100"
    using r0(2) by (simp add: consistent_def)
  ultimately show ?thesis using r0(1) by simp
qed

theorem evaluateResponses_totals_witness:
  "''setA'' \<notin> set objectPrototypeProps \<and>
   (\<exists>r. evaluateResponses [''b'', ''B'', '' '', ''''] ''setA'' = Inr r \<and>
        totalScore r = length (filter (\<lambda>d. status d = Correct) (detailedResults r)) \<and>
        totalScore r + incorrect (summary r) + unanswered (summary r) = totalQuestions r \<and>
        totalQuestions r = 100)"
proof -
  have h: "''setA'' \<notin> set objectPrototypeProps"
    by (simp add: objectPrototypeProps_def)
  from evaluateResponses_totals [OF h] h show ?thesis by blast
qed


text \<open>
  C6. For every response array, the \<^const>\<open>correct_s\<close> counters of the subjects in
  \<^const>\<open>subjectScores\<close> of the returned result add up to \<^const>\<open>totalScore\<close>. A result
  is returned for every exam set that selects an answer key, that is, for every name that
  is not inherited from \<^verbatim>\<open>Object.prototype\<close>.
\<close>

theorem subject_scores_sum:
  assumes "examSet \<notin> set objectPrototypeProps"
  shows "\<exists>r. evaluateResponses responses examSet = Inr r \<and>
           sum_list (map (\<lambda>(name, d). correct_s d) (subjectScores r)) = totalScore r"
proof -
  from selectAnswerKey_valid [OF assms] obtain k where "selectAnswerKey examSet = KeyObject k"
    by blast
  from evaluateResponses_returns [OF this, of responses] obtain r0 where
    r0: "evaluateResponses responses examSet = Inr (setPercentages r0)" "consistent r0"
    by blast
  have "sumCorrect (subjectScores (setPercentages r0)) = totalScore (setPercentages r0)"
    using r0(2) by (simp add: consistent_def)
  then show ?thesis using r0(1) by (auto simp add: sumCorrect_def)
qed

theorem subject_scores_sum_witness:
  "''setB'' \<notin> set objectPrototypeProps \<and>
   (\<exists>r. evaluateResponses [''c'', ''a'', ''D''] ''setB'' = Inr r \<and>
        sum_list (map (\<lambda>(name, d). correct_s d) (subjectScores r)) = totalScore r)"
proof -
  have h: "''setB'' \<notin> set objectPrototypeProps"
    by (simp add: objectPrototypeProps_def)
  from subject_scores_sum [OF h] h show ?thesis by blast
qed

subsection \<open>Missing, blank and surplus responses\<close>

lemma answerAt_nth: "i < length responses \<Longrightarrow> answerAt responses i = responses ! i"
  by (simp add: answerAt_def index_def)

lemma answerAt_beyond: "length responses \<le> i \<Longrightarrow> answerAt responses i = []"
  by (simp add: answerAt_def index_def)

lemma answerAt_take: "i < 100 \<Longrightarrow> answerAt (take 100 responses) i = answerAt responses i"
  by (simp add: answerAt_def index_def)

lemma evalQuestion_take:
  "i < 100 \<Longrightarrow>
   evalQuestion (take 100 responses) correctAnswers specialCases' i r =
   evalQuestion responses correctAnswers specialCases' i r"
  by (simp add: evalQuestion_def answerAt_take)

lemma evalLoop_take:
  "evalLoop (take 100 responses) correctAnswers specialCases' i r =
   evalLoop responses correctAnswers specialCases' i r"
proof (induction responses correctAnswers specialCases' i r rule: evalLoop.induct)
  case (1 responses correctAnswers specialCases' i results)
  show ?case
  proof (cases "i < 100")
    case False
    then show ?thesis
      by (simp add: evalLoop.simps [of _ _ _ i])
  next
    case True
    show ?thesis
    proof (cases "evalQuestion responses correctAnswers specialCases' i results")
      case (Inl e)
      with True show ?thesis
        by (simp add: evalLoop.simps [of _ _ _ i] evalQuestion_take)
    next
      case (Inr r1)
      from "1.IH" [OF True Inr] True Inr show ?thesis
        by (simp add: evalLoop.simps [of _ _ _ i] evalQuestion_take)
    qed
  qed
qed

lemma evaluateResponses_take:
  "evaluateResponses (take 100 responses) examSet = evaluateResponses responses examSet"
  by (simp add: evaluateResponses_def evalLoop_take)


text \<open>
  C4. A response array shorter than 100 entries is evaluated without an exception, and every
  question from its length on is \<^const>\<open>Unanswered\<close>; of a longer array only the first 100
  entries are read, so the result is that of the array cut to 100 entries. This holds for
  every exam set that selects an answer key.
\<close>

theorem response_length_tolerated:
  assumes "examSet \<notin> set objectPrototypeProps"
  shows "\<exists>r. evaluateResponses responses examSet = Inr r \<and>
           (\<forall>i. length responses \<le> i \<and> i < 100 \<longrightarrow>
                status (detailedResults r ! i) = Unanswered) \<and>
           evaluateResponses (take 100 responses) examSet = Inr r"
proof -
  from selectAnswerKey_valid [OF assms] obtain k where "selectAnswerKey examSet = KeyObject k"
    by blast
  from evaluateResponses_returns [OF this, of responses] obtain r0 where
    r0: "evaluateResponses responses examSet = Inr (setPercentages r0)"
      "\<forall>j<100. scoredAs responses (rawAnswers k) (specialCases k) j (detailedResults r0 ! j)"
    by blast
  have "status (detailedResults r0 ! i) = Unanswered" if "length responses \<le> i" "i < 100" for i
  proof -
    from r0(2) that(2) have
      "scoredAs responses (rawAnswers k) (specialCases k) i (detailedResults r0 ! i)"
      by simp
    moreover have "blank (answerAt responses i)"
      using that(1) by (simp add: answerAt_beyond blank_def)
    ultimately show ?thesis by (simp add: scoredAs_def)
  qed
  with r0(1) show ?thesis
    by (simp add: evaluateResponses_take)
qed

theorem response_length_tolerated_witness:
  "''setA'' \<notin> set objectPrototypeProps \<and>
   (\<exists>r. evaluateResponses (replicate 95 ''a'') ''setA'' = Inr r \<and>
        length (replicate 95 ''a'') \<le> 97 \<and> (97::nat) < 100 \<and>
        status (detailedResults r ! 97) = Unanswered) \<and>
   (\<exists>r. evaluateResponses (replicate 103 ''a'') ''setA'' = Inr r \<and>
        evaluateResponses (take 100 (replicate 103 ''a'')) ''setA'' = Inr r)"
proof -
  have h: "''setA'' \<notin> set objectPrototypeProps"
    by (simp add: objectPrototypeProps_def)
  from response_length_tolerated [OF h, of "replicate 95 ''a''"] obtain r where
    "evaluateResponses (replicate 95 ''a'') ''setA'' = Inr r"
    "\<forall>i. length (replicate 95 ''a'') \<le> i \<and> i < 100 \<longrightarrow> status (detailedResults r ! i) = Unanswered"
    by blast
  then have short: "\<exists>r. evaluateResponses (replicate 95 ''a'') ''setA'' = Inr r \<and>
        length (replicate 95 ''a'') \<le> 97 \<and> (97::nat) < 100 \<and>
        status (detailedResults r ! 97) = Unanswered"
    by auto
  from response_length_tolerated [OF h, of "replicate 103 ''a''"] have
    "\<exists>r. evaluateResponses (replicate 103 ''a'') ''setA'' = Inr r \<and>
        evaluateResponses (take 100 (replicate 103 ''a'')) ''setA'' = Inr r"
    by blast
  with h short show ?thesis by blast
qed


text \<open>
  C3. When the response at the index \<open>i\<close> is empty or made of white space only, the record
  of that question has the status \<^const>\<open>Unanswered\<close> and is not correct. It is counted by
  \<^const>\<open>unanswered\<close> and by none of \<^const>\<open>totalScore\<close>, \<^const>\<open>correct\<close> and
  \<^const>\<open>incorrect\<close>: each of the four counters is the number of records with its own
  status. As before, the exam set is any name that selects an answer key.
\<close>

theorem blank_answer_unanswered:
  assumes "examSet \<notin> set objectPrototypeProps" and "i < 100" and "i < length responses"
    and "\<forall>c\<in>set (responses ! i). isWhiteSpace c"
  shows "\<exists>r. evaluateResponses responses examSet = Inr r \<and>
           status (detailedResults r ! i) = Unanswered \<and>
           \<not> isCorrect (detailedResults r ! i) \<and>
           unanswered (summary r) =
             length (filter (\<lambda>d. status d = Unanswered) (detailedResults r)) \<and>
           totalScore r = length (filter (\<lambda>d. status d = Correct) (detailedResults r)) \<and>
           correct (summary r) = length (filter (\<lambda>d. status d = Correct) (detailedResults r)) \<and>
           incorrect (summary r) =
             length (filter (\<lambda>d. status d = Incorrect) (detailedResults r))"
proof -
  from selectAnswerKey_valid [OF assms(1)] obtain k where "selectAnswerKey examSet = KeyObject k"
    by blast
  from evaluateResponses_returns [OF this, of responses] obtain r0 where
    r0: "evaluateResponses responses examSet = Inr (setPercentages r0)"
      "consistent r0"
      "\<forall>j<100. scoredAs responses (rawAnswers k) (specialCases k) j (detailedResults r0 ! j)"
    by blast
  have "blank (answerAt responses i)"
    using assms(3,4) by (simp add: answerAt_nth blank_iff)
  with r0(3) assms(2) have
    "status (detailedResults r0 ! i) = Unanswered \<and> \<not> isCorrect (detailedResults r0 ! i)"
    by (simp add: scoredAs_def)
  with r0(1,2) show ?thesis
    by (simp add: consistent_def countStatus_def)
qed

theorem blank_answer_unanswered_witness:
  "''setA'' \<notin> set objectPrototypeProps \<and> (1::nat) < 100 \<and>
   1 < length [''b'', [CHR 0x20, CHR 0x09], ''c''] \<and>
   list_all isWhiteSpace ([''b'', [CHR 0x20, CHR 0x09], ''c''] ! 1) \<and>
   (\<exists>r. evaluateResponses [''b'', [CHR 0x20, CHR 0x09], ''c''] ''setA'' = Inr r \<and>
        status (detailedResults r ! 1) = Unanswered \<and>
        \<not> isCorrect (detailedResults r ! 1) \<and>
        unanswered (summary r) =
          length (filter (\<lambda>d. status d = Unanswered) (detailedResults r)) \<and>
        totalScore r = length (filter (\<lambda>d. status d = Correct) (detailedResults r)) \<and>
        correct (summary r) = length (filter (\<lambda>d. status d = Correct) (detailedResults r)) \<and>
        incorrect (summary r) =
          length (filter (\<lambda>d. status d = Incorrect) (detailedResults r)))"
proof -
  have h1: "''setA'' \<notin> set objectPrototypeProps"
    by (simp add: objectPrototypeProps_def)
  have h2: "(1::nat) < 100" by simp
  have h3: "1 < length [''b'', [CHR 0x20, CHR 0x09], ''c'']" by simp
  have h4: "\<forall>c\<in>set ([''b'', [CHR 0x20, CHR 0x09], ''c''] ! 1). isWhiteSpace c"
    by (simp add: isWhiteSpace_def)
  have h4': "list_all isWhiteSpace ([''b'', [CHR 0x20, CHR 0x09], ''c''] ! 1)"
    by (simp add: isWhiteSpace_def)
  from blank_answer_unanswered [OF h1 h2 h3 h4] h1 h2 h3 h4' show ?thesis
    by blast
qed

subsection \<open>The comparison\<close>

lemma answerMatches_special:
  "map_of specialCases' (toString questionNum) = Some accepted \<Longrightarrow>
   answerMatches specialCases' questionNum studentAnswer' correctAnswer' =
     Inr (toLowerCase studentAnswer' \<in> set accepted)"
  by (simp add: answerMatches_def)



lemma evalLoop_special_case:
  assumes "evalLoop responses (Some answers) specialCases' 0 initialResults = Inr r"
    and "i < 100"
    and "map_of specialCases' (toString (i + 1)) = Some accepted"
    and "\<not> blank (answerAt responses i)"
  shows "isCorrect (detailedResults r ! i) = (toLowerCase (answerAt responses i) \<in> set accepted)"
proof -
  have "length (detailedResults initialResults) = 0"
    by (simp add: initialResults_def)
  from evalLoop_Inr [OF assms(1) consistent_initial this] assms(2) have
    "scoredAs responses answers specialCases' i (detailedResults r ! i)"
    by simp
  with assms(3,4) show ?thesis
    by (simp add: scoredAs_def answerMatches_special)
qed









lemma lower_case_response_upper_case_key:
  "\<exists>r. evalLoop [''b''] (Some (''B'' # replicate 99 ''a'')) [] 0 initialResults = Inr r \<and>
       isCorrect (detailedResults r ! 0)"
proof -
  have "100 \<le> length (''B'' # replicate 99 ''a'')" by simp
  from evalLoop_returns [OF consistent_initial this] obtain r where
    r: "evalLoop [''b''] (Some (''B'' # replicate 99 ''a'')) [] 0 initialResults = Inr r"
    by blast
  have "length (detailedResults initialResults) = 0"
    by (simp add: initialResults_def)
  from evalLoop_Inr [OF r consistent_initial this] have
    "scoredAs [''b''] (''B'' # replicate 99 ''a'') [] 0 (detailedResults r ! 0)"
    by simp
  then have "isCorrect (detailedResults r ! 0)"
    by (simp add: scoredAs_def answerAt_def index_def blank_def trim_def isWhiteSpace_def
        answerMatches_def toLowerCase_def toLowerChar_def upperCaseLetters_def
        lowerCaseLetters_def)
  with r show ?thesis by blast
qed

subsection \<open>Subject lookup\<close>

text \<open>
  \<^const>\<open>getSubjectForQuestion\<close> has five fixed segments and returns the placeholder
  \<^verbatim>\<open>"Unknown"\<close> exactly for the numbers outside 1 to 100. The loop asks for the numbers 1 to
  100 only, and each of them lies in one segment: no evaluation meets a question without a
  subject. Past 100 the loop body would throw on the missing entry of \<^verbatim>\<open>subjectScores\<close>,
  but the loop never gets there.
\<close>

lemma getSubjectForQuestion_Unknown:
  "(getSubjectForQuestion questionNum = ''Unknown'') = (questionNum < 1 \<or> 100 < questionNum)"
  by (simp add: getSubjectForQuestion_def) arith

lemma evalQuestion_uncovered:
  assumes "consistent r" and "100 \<le> i"
  shows "evalQuestion responses correctAnswers specialCases' i r = Inl TypeError"
proof (cases correctAnswers)
  case None
  then show ?thesis by (simp add: evalQuestion_def)
next
  case (Some answers)
  let ?subj = "getSubjectForQuestion (i + 1)"
  have unknown: "?subj = ''Unknown''"
    using assms(2) by (simp add: getSubjectForQuestion_Unknown)
  have keys: "map fst (subjectScores r) = subjects"
    using assms(1) by (simp add: consistent_def)
  show ?thesis
  proof (cases "tally specialCases' (i + 1) ?subj (answerAt responses i) (index answers i) r")
    case (Inl e)
    with Some show ?thesis
      by (cases e) (simp add: evalQuestion_def)
  next
    case (Inr out)
    obtain v st r1 where out: "out = (v, st, r1)"
      by (cases out)
    from tally_keys [OF Inr [unfolded out]] keys have "map fst (subjectScores r1) = subjects"
      by simp
    then have "fst ` set (subjectScores r1) = set subjects"
      by (metis set_map)
    then have "?subj \<notin> fst ` set (subjectScores r1)"
      unfolding unknown by (simp add: subjects_def)
    with Some Inr out show ?thesis
      by (simp add: evalQuestion_def Let_def updateSubject_def)
  qed
qed

lemma every_question_covered:
  "1 \<le> questionNum \<and> questionNum \<le> 100 \<Longrightarrow> getSubjectForQuestion questionNum \<in> set subjects"
  by (simp add: getSubjectForQuestion_def subjects_def)

lemma evaluateResponses_subjects:
  assumes "evaluateResponses responses examSet = Inr r"
  shows "list_all (\<lambda>d. subject d \<in> set subjects) (detailedResults r)"
proof -
  from assms obtain k r0 where
    "selectAnswerKey examSet = KeyObject k" and
    r: "r = setPercentages r0" and "consistent r0" and
    len: "length (detailedResults r0) = 100" and
    ds: "\<forall>j<100. scoredAs responses (rawAnswers k) (specialCases k) j (detailedResults r0 ! j)"
    by (rule evaluateResponses_Inr)
  have "subject d \<in> set subjects" if "d \<in> set (detailedResults r0)" for d
  proof -
    from that len obtain j where j: "j < 100" "d = detailedResults r0 ! j"
      by (metis in_set_conv_nth)
    with ds have "subject d = getSubjectForQuestion (j + 1)"
      by (simp add: scoredAs_def)
    with subject_known [OF j(1)] show ?thesis by simp
  qed
  with r show ?thesis
    by (simp add: list_all_iff)
qed

subsection \<open>Percentages\<close>

lemma subject_sizes_all:
  "list_all
     (\<lambda>name. length (filter (\<lambda>s. s = name)
                 (map (\<lambda>j. getSubjectForQuestion (j + 1)) [0..<100])) = 20)
     subjects"
  by code_simp

lemma subject_sizes:
  "name \<in> set subjects \<Longrightarrow>
   length (filter (\<lambda>s. s = name) (map (\<lambda>j. getSubjectForQuestion (j + 1)) [0..<100])) = 20"
  using subject_sizes_all by (simp add: list_all_iff)

lemma subjects_of_details:
  assumes "length ds = 100"
    and "\<forall>j<100. scoredAs responses answers specialCases' j (ds ! j)"
  shows "map subject ds = map (\<lambda>j. getSubjectForQuestion (j + 1)) [0..<100]"
  using assms by (intro nth_equalityI) (simp_all add: scoredAs_def)

lemma setA_own_answers_match:
  "list_all
     (\<lambda>j. \<not> blank (answerAt (rawAnswers setA) j) \<and>
          answerMatches (specialCases setA) (j + 1) (answerAt (rawAnswers setA) j)
            (index (rawAnswers setA) j) = Inr True)
     [0..<100]"
  by code_simp


text \<open>
  C9, as amended. With the 100 questions and the five segments of 20 questions of the code, a
  result in which every record is \<^const>\<open>Correct\<close> has the score 100, the percentage 100, and
  for each of the five subjects 20 correct answers of 20 and the percentage 100. The
  witness is the array of the answers of \<^verbatim>\<open>setA\<close>, evaluated against \<^verbatim>\<open>setA\<close>.
\<close>

theorem all_correct_gives_100:
  assumes "evaluateResponses responses examSet = Inr r"
    and "\<forall>d\<in>set (detailedResults r). status d = Correct"
  shows "totalScore r = 100 \<and> percentage r = 100 \<and>
         map fst (subjectScores r) = subjects \<and>
         (\<forall>(name, d)\<in>set (subjectScores r).
            correct_s d = 20 \<and> total d = 20 \<and> percentage_s d = 100)"
proof -
  from assms(1) obtain k r0 where
    "selectAnswerKey examSet = KeyObject k" and
    r: "r = setPercentages r0" and inv: "consistent r0" and
    len: "length (detailedResults r0) = 100" and
    ds: "\<forall>j<100. scoredAs responses (rawAnswers k) (specialCases k) j (detailedResults r0 ! j)"
    by (rule evaluateResponses_Inr)
  from assms(2) r have allc: "\<forall>d\<in>set (detailedResults r0). status d = Correct"
    by simp
  then have "filter (\<lambda>d. status d = Correct) (detailedResults r0) = detailedResults r0"
    by (simp add: filter_id_conv)
  with inv len have score: "totalScore r0 = 100"
    by (simp add: consistent_def countStatus_def)
  have keys: "map fst (subjectScores r0) = subjects"
    using inv by (simp add: consistent_def)
  have subj: "correct_s d = 20 \<and> total d = 20 \<and> percentage_s d = 100"
    if "(name, d) \<in> set (subjectScores r)" for name d
  proof -
    from that r obtain d0 where
      d0: "(name, d0) \<in> set (subjectScores r0)" "correct_s d = correct_s d0"
        "total d = total d0"
        "percentage_s d = real (correct_s d0) / real (total d0) * 100"
      by (auto elim: setPercentages_subject)
    from d0(1) keys have name: "name \<in> set subjects"
      by (metis fst_conv image_eqI set_map)
    from d0(1) inv have
      t: "total d0 = 20" and
      c: "correct_s d0 =
            length (filter (\<lambda>q. subject q = name \<and> status q = Correct) (detailedResults r0))"
      by (auto simp add: consistent_def)
    have "filter (\<lambda>q. subject q = name \<and> status q = Correct) (detailedResults r0) =
          filter (\<lambda>q. subject q = name) (detailedResults r0)"
      using allc by (intro filter_cong) auto
    then have "correct_s d0 = length (filter (\<lambda>q. subject q = name) (detailedResults r0))"
      using c by simp
    also have "\<dots> = length (filter (\<lambda>s. s = name) (map subject (detailedResults r0)))"
      by (simp add: filter_map comp_def)
    also have "\<dots> = 20"
      using subject_sizes [OF name] subjects_of_details [OF len ds] by simp
    finally have "correct_s d0 = 20" .
    with t d0 show ?thesis by simp
  qed
  from score keys r subj show ?thesis
    by auto
qed


theorem all_correct_gives_100_witness:
  "\<exists>r. evaluateResponses (rawAnswers setA) ''setA'' = Inr r \<and>
       list_all (\<lambda>d. status d = Correct) (detailedResults r) \<and>
       totalScore r = 100 \<and> percentage r = 100 \<and>
       map fst (subjectScores r) = subjects \<and>
       list_all (\<lambda>(name, d). correct_s d = 20 \<and> total d = 20 \<and> percentage_s d = 100)
         (subjectScores r)"
proof -
  have "selectAnswerKey ''setA'' = KeyObject setA"
    by (simp add: selectAnswerKey_def answerKeys_def)
  from evaluateResponses_returns [OF this, of "rawAnswers setA"] obtain r0 where
    r0: "evaluateResponses (rawAnswers setA) ''setA'' = Inr (setPercentages r0)"
      "length (detailedResults r0) = 100"
      "\<forall>j<100. scoredAs (rawAnswers setA) (rawAnswers setA) (specialCases setA) j
                 (detailedResults r0 ! j)"
    by blast
  have "status (detailedResults r0 ! j) = Correct" if "j < 100" for j
  proof -
    from setA_own_answers_match that have
      "\<not> blank (answerAt (rawAnswers setA) j)"
      "answerMatches (specialCases setA) (j + 1) (answerAt (rawAnswers setA) j)
            (index (rawAnswers setA) j) = Inr True"
      by (simp_all add: list_all_iff)
    moreover from r0(3) that have
      "scoredAs (rawAnswers setA) (rawAnswers setA) (specialCases setA) j (detailedResults r0 ! j)"
      by simp
    ultimately show ?thesis
      by (simp add: scoredAs_def)
  qed
  with r0(2) have all: "\<forall>d\<in>set (detailedResults (setPercentages r0)). status d = Correct"
    by (auto simp add: in_set_conv_nth)
  from all_correct_gives_100 [OF r0(1) all] all r0(1) show ?thesis
    by (auto simp add: list_all_iff)
qed


text \<open>
  Responses identical to the answer key are not always all correct: in \<^verbatim>\<open>setB\<close> the key of
  question 59 is \<^verbatim>\<open>c\<close>, which the special case of that question (accepting \<^verbatim>\<open>a\<close> and
  \<^verbatim>\<open>b\<close>) overrides. The answers of \<^verbatim>\<open>setB\<close> score 99 against \<^verbatim>\<open>setB\<close>.
\<close>

theorem setB_own_answers_score_99:
  "map_sum id totalScore (evaluateResponses (rawAnswers setB) ''setB'') = Inr 99 \<and>
   map_sum id percentage (evaluateResponses (rawAnswers setB) ''setB'') = Inr 99"
proof -
  have score: "map_sum id totalScore (evaluateResponses (rawAnswers setB) ''setB'') = Inr 99"
    by code_simp
  have "selectAnswerKey ''setB'' = KeyObject setB"
    by (simp add: selectAnswerKey_def answerKeys_def)
  from evaluateResponses_returns [OF this, of "rawAnswers setB"] obtain r0 where
    r0: "evaluateResponses (rawAnswers setB) ''setB'' = Inr (setPercentages r0)"
    by blast
  with score have "totalScore r0 = 99" by simp
  with r0 score show ?thesis by simp
qed

subsection \<open>The exam set\<close>

text \<open>
  C10. The claim is that for every response array and every value of \<^verbatim>\<open>examSet\<close> the
  function returns a result with 100 questions, 100 detailed records numbered in order and
  five subjects of 20 questions. For the exam set \<^verbatim>\<open>"constructor"\<close> the lookup
  \<^verbatim>\<open>answerKeys[examSet]\<close> yields the inherited constructor function, no fallback to
  \<^verbatim>\<open>setA\<close> takes place, \<^verbatim>\<open>rawAnswers\<close> is \<^verbatim>\<open>undefined\<close>, and the first
  \<^verbatim>\<open>correctAnswers[i]\<close> throws: no result is returned.
\<close>

theorem evaluateResponses_constructor_throws:
  "evaluateResponses [] ''constructor'' = Inl TypeError"
  by (simp add: evaluateResponses_def selectAnswerKey_def answerKeys_def
      objectPrototypeProps_def evalLoop.simps [of _ _ _ 0] evalQuestion_def)

text \<open>For every other exam set the result has the fixed shape: 100 questions, 100 records
  numbered from 1, and the five subjects with 20 questions each.\<close>

lemma evaluateResponses_shape:
  assumes "examSet \<notin> set objectPrototypeProps"
  shows "\<exists>r. evaluateResponses responses examSet = Inr r \<and>
           totalQuestions r = 100 \<and> length (detailedResults r) = 100 \<and>
           (\<forall>i<100. questionNumber (detailedResults r ! i) = i + 1) \<and>
           map fst (subjectScores r) = subjects \<and>
           (\<forall>(name, d)\<in>set (subjectScores r). total d = 20)"
proof -
  from selectAnswerKey_valid [OF assms] obtain k where "selectAnswerKey examSet = KeyObject k"
    by blast
  from evaluateResponses_returns [OF this, of responses] obtain r0 where
    r0: "evaluateResponses responses examSet = Inr (setPercentages r0)"
      "consistent r0" "length (detailedResults r0) = 100"
      "\<forall>j<100. scoredAs responses (rawAnswers k) (specialCases k) j (detailedResults r0 ! j)"
    by blast
  have "total d = 20" if "(name, d) \<in> set (subjectScores (setPercentages r0))" for name d
  proof -
    from that obtain d0 where "(name, d0) \<in> set (subjectScores r0)" "total d = total d0"
      by (rule setPercentages_subject)
    with r0(2) show ?thesis by (auto simp add: consistent_def)
  qed
  moreover have "\<forall>i<100. questionNumber (detailedResults r0 ! i) = i + 1"
    using r0(4) by (simp add: scoredAs_def)
  moreover have "totalQuestions r0 = 100" "map fst (subjectScores r0) = subjects"
    using r0(2) by (simp_all add: consistent_def)
  ultimately show ?thesis using r0(1,3) by auto
qed

end
